theory Spec2Isabelle
  imports Complex_Main "HOL-Library.Word"
begin

section \<open>The signal analysis core of soundtrack-analyzer\<close>

text \<open>
  The embedding follows \<^verbatim>\<open>soundtrack_analyzer/analyze.py\<close> and
  \<^verbatim>\<open>soundtrack_analyzer/utils.py\<close>.

  Conventions of the model:
  \<^item> a numpy integer array is a list of machine words \<open>'a word\<close>, read as signed
    (\<open>sint\<close>): \<open>16 word\<close> is the \<open>int16\<close> of \<open>read_sound_file\<close>, \<open>64 word\<close> the
    \<open>int64\<close> of the arrays of the test-suite; \<open>cutoff\<close> is a Python integer, an \<open>int\<close>;
  \<^item> a finite Python float is an exact \<open>real\<close>: rounding is not modelled, and the float
    literal \<open>0.000125\<close> is the fraction \<open>125 / 10 ^ 6\<close>;
  \<^item> an exception is a value \<open>Inl e\<close> of the result type \<open>error + 'a\<close>;
  \<^item> the in-place update of an array is the returned list.
\<close>

datatype error = IndexError | ZeroDivisionError | ValueError string

text \<open>A Python float: a finite value, an infinity or nan.\<close>

datatype py_float = Finite real | PosInf | NegInf | NaN

subsection \<open>The numpy operations used by the source\<close>

text \<open>\<^verbatim>\<open>np.where(bs)[0]\<close>: the indices of the true entries, ascending.\<close>

definition np_where :: "bool list \<Rightarrow> nat list" where
  "np_where bs = filter (\<lambda>i. bs ! i) [0..<length bs]"

text \<open>
  \<^verbatim>\<open>np.diff(xs)\<close>: \<open>out[i] = xs[i + 1] - xs[i]\<close>. The source applies it to the ascending
  index array of \<open>np.where\<close>, where the differences are natural numbers.
\<close>

definition np_diff :: "nat list \<Rightarrow> nat list" where
  "np_diff xs = map2 (\<lambda>a b. b - a) (butlast xs) (tl xs)"

text \<open>\<^verbatim>\<open>np.count_nonzero(bs)\<close> on a boolean array.\<close>

definition count_nonzero :: "bool list \<Rightarrow> nat" where
  "count_nonzero bs = length (filter (\<lambda>b. b) bs)"

text \<open>
  The Python integer \<open>v\<close> lies in the range of the element type of the array \<open>signal\<close>.
\<close>

definition representable :: "'a::len word list \<Rightarrow> int \<Rightarrow> bool" where
  "representable signal v = (- (2 ^ (LENGTH('a) - 1)) \<le> v \<and> v < 2 ^ (LENGTH('a) - 1))"

text \<open>
  \<^verbatim>\<open>signal[gaps] = v\<close> with a Python integer \<open>v\<close>: the value is converted to the element
  type of the array and every listed position receives it; an index outside the array
  raises IndexError. A value outside the range of the element type is stored reduced
  modulo \<open>2 ^ w\<close> (\<open>word_of_int\<close>), which is what numpy before 2.0 does; numpy from 2.0
  raises OverflowError at such a value instead. The two agree on every \<open>representable\<close>
  value.
\<close>

definition np_assign :: "'a::len word list \<Rightarrow> nat list \<Rightarrow> int \<Rightarrow> error + 'a word list" where
  "np_assign signal gaps v =
     (if list_all (\<lambda>i. i < length signal) gaps
      then Inr (fold (\<lambda>i s. s[i := word_of_int v]) gaps signal)
      else Inl IndexError)"

text \<open>
  \<^verbatim>\<open>np.linspace(start, stop, num=num)\<close> with the default \<open>endpoint=True\<close>: \<open>num\<close>
  values with step \<open>(stop - start) / (num - 1)\<close>, the last one set to \<open>stop\<close>; a single
  value is \<open>start\<close>.
\<close>

definition np_linspace :: "real \<Rightarrow> real \<Rightarrow> nat \<Rightarrow> real list" where
  "np_linspace start stop num =
     (if num = 0 then []
      else if num = 1 then [start]
      else map (\<lambda>i. start + real i * ((stop - start) / real (num - 1))) [0..<num - 1] @ [stop])"

text \<open>Python's true division of two Python integers (here: two lengths or counts).\<close>

definition py_div :: "nat \<Rightarrow> nat \<Rightarrow> error + real" where
  "py_div a b = (if b = 0 then Inl ZeroDivisionError else Inr (real a / real b))"

text \<open>
  What \<^verbatim>\<open>np.count_nonzero\<close> returns for an array depends on the numpy release: a Python
  integer, or a numpy integer scalar (from numpy 2.3). The quotient
  \<^verbatim>\<open>np.count_nonzero(...) / len(signal)\<close> differs between the two only at the divisor 0:
  the Python integer raises ZeroDivisionError, the numpy scalar gives nan for \<open>0 / 0\<close> and
  infinity for a positive count (with a warning).
\<close>

datatype count_type = Python_int | Numpy_scalar

definition count_div :: "count_type \<Rightarrow> nat \<Rightarrow> nat \<Rightarrow> error + py_float" where
  "count_div k a b =
     (if b = 0
      then (case k of
              Python_int \<Rightarrow> Inl ZeroDivisionError
            | Numpy_scalar \<Rightarrow> Inr (if a = 0 then NaN else PosInf))
      else Inr (Finite (real a / real b)))"

text \<open>\<^verbatim>\<open>xs[-1]\<close>: the last element; IndexError on an empty array.\<close>

definition py_last :: "'a list \<Rightarrow> error + 'a" where
  "py_last xs = (if xs = [] then Inl IndexError else Inr (last xs))"

subsection \<open>\<open>patch_signal\<close>\<close>

text \<open>
  The loop of \<open>patch_signal\<close> over the run lengths \<open>result\<close>, with its three variables
  \<open>below\<close>, \<open>index\<close> and \<open>gaps\<close>:
  \<^verbatim>\<open>
    for item in result:
        if below is True and item <= max_gap:
            gaps += list(range(index, index + item))
        index += item
        below = not below
  \<close>
\<close>

fun patch_loop :: "real \<Rightarrow> nat list \<Rightarrow> bool \<Rightarrow> nat \<Rightarrow> nat list \<Rightarrow> nat list" where
  "patch_loop max_gap [] below index gaps = gaps"
| "patch_loop max_gap (item # result) below index gaps =
     patch_loop max_gap result (\<not> below) (index + item)
       (if below \<and> real item \<le> max_gap then gaps @ [index..<index + item] else gaps)"

text \<open>
  \<^verbatim>\<open>
    if signal[0] > cutoff:
        mask = signal > cutoff
        below = False
    else:
        mask = signal <= cutoff
        below = True
    index = 0
    gaps = []
    result = np.diff(
        np.where(np.concatenate(([mask[0]], mask[:-1] != mask[1:], [True])))[0])
    for item in result: ...
    signal[gaps] = cutoff + 1
    return signal
  \<close>
  \<open>signal[0]\<close> raises IndexError on an empty array. The comparison of a sample with the
  Python integer \<open>cutoff\<close> is the comparison of the two integers, whatever the size of
  \<open>cutoff\<close>.
\<close>

definition patch_signal :: "'a::len word list \<Rightarrow> int \<Rightarrow> real \<Rightarrow> error + 'a word list" where
  "patch_signal signal cutoff max_gap =
     (case signal of
        [] \<Rightarrow> Inl IndexError
      | s0 # _ \<Rightarrow>
          let (mask, below) =
                (if sint s0 > cutoff then (map (\<lambda>x. sint x > cutoff) signal, False)
                 else (map (\<lambda>x. sint x \<le> cutoff) signal, True));
              result = np_diff (np_where
                 ([hd mask] @ map2 (\<lambda>a b. a \<noteq> b) (butlast mask) (tl mask) @ [True]));
              gaps = patch_loop max_gap result below 0 []
          in np_assign signal gaps (cutoff + 1))"

subsection \<open>\<open>get_bark_fraction\<close>\<close>

text \<open>
  \<^verbatim>\<open>
    if max_gap <= 0:
        return np.count_nonzero(signal > cutoff) / len(signal)
    max_gap /= 0.000125  # convert seconds gap to n-samples gap
    signal = patch_signal(signal.copy(), cutoff, max_gap)
    return np.count_nonzero(signal > cutoff) / len(signal)
  \<close>
\<close>

text \<open>
  The first parameter says what \<open>np.count_nonzero\<close> returns in the numpy in use. The
  quotient \<open>max_gap / 0.000125\<close> is the exact one; the code's quotient of two doubles can
  fall just below an integer that the exact quotient reaches.
\<close>

definition get_bark_fraction ::
  "count_type \<Rightarrow> 'a::len word list \<Rightarrow> int \<Rightarrow> real \<Rightarrow> error + py_float" where
  "get_bark_fraction k signal cutoff max_gap =
     (if max_gap \<le> 0
      then count_div k (count_nonzero (map (\<lambda>x. sint x > cutoff) signal)) (length signal)
      else
        (case patch_signal signal cutoff (max_gap / 0.000125) of
           Inl e \<Rightarrow> Inl e
         | Inr patched \<Rightarrow>
             count_div k (count_nonzero (map (\<lambda>x. sint x > cutoff) patched)) (length patched)))"

subsection \<open>\<open>read_sound_file\<close> and \<open>analyze_file\<close>\<close>

text \<open>
  An opened wave file, as far as \<open>read_sound_file\<close> looks at it: the channel count, the
  frame rate, and the frames of the data chunk as \<open>np.frombuffer(..., dtype=np.int16)\<close>
  reads them (one 16-bit word per frame of a mono 16-bit file).
\<close>

record wave_file =
  nchannels :: nat
  framerate :: nat
  frames :: "16 word list"

text \<open>The argument \<open>samples: int | float\<close> of \<open>read_sound_file\<close>.\<close>

datatype samples_arg = SamplesInt int | SamplesFloat real

text \<open>Python's \<open>int(x)\<close> on a float truncates towards zero.\<close>

definition py_int :: "real \<Rightarrow> int" where
  "py_int x = (if 0 \<le> x then \<lfloor>x\<rfloor> else \<lceil>x\<rceil>)"

text \<open>
  \<^verbatim>\<open>signal_wave.readframes(n)\<close>: at most \<open>n\<close> frames; a negative count reads all of them.
\<close>

definition readframes :: "wave_file \<Rightarrow> int \<Rightarrow> 16 word list" where
  "readframes file n = (if n < 0 then frames file else take (nat n) (frames file))"

text \<open>
  \<^verbatim>\<open>np.abs\<close> on an int16 array stays in int16: the absolute value of \<open>-32768\<close> wraps to
  \<open>-32768\<close>.
\<close>

definition np_abs :: "16 word \<Rightarrow> 16 word" where
  "np_abs w = (if sint w < 0 then - w else w)"

text \<open>
  \<^verbatim>\<open>
    signal_wave = wave.open(file, "r")
    if signal_wave.getnchannels() == 2:
        raise ValueError("Only mono files supported.")
    if isinstance(samples, float):
        if samples.is_integer():
            samples = int(samples)
        else:
            samples = int(signal_wave.getnframes() * samples)
    signal = np.frombuffer(signal_wave.readframes(samples), dtype=np.int16)
    signal = np.abs(signal)
    frame_rate = signal_wave.getframerate()
    time = np.linspace(0, len(signal) / frame_rate, num=len(signal))
    return time, signal
  \<close>
\<close>

definition read_sound_file ::
  "wave_file \<Rightarrow> samples_arg \<Rightarrow> error + (real list \<times> 16 word list)" where
  "read_sound_file file samples =
     (if nchannels file = 2 then Inl (ValueError ''Only mono files supported.'')
      else
        let n = (case samples of
                   SamplesInt k \<Rightarrow> k
                 | SamplesFloat x \<Rightarrow>
                     if real_of_int \<lfloor>x\<rfloor> = x then py_int x
                     else py_int (real (length (frames file)) * x));
            signal = map np_abs (readframes file n);
            frame_rate = framerate file
        in (case py_div (length signal) frame_rate of
              Inl e \<Rightarrow> Inl e
            | Inr stop \<Rightarrow> Inr (np_linspace 0 stop (length signal), signal)))"

text \<open>
  \<open>AnalysisResult\<close>. The timestamp comes from the file name through
  \<open>extract_timestamp\<close>, which is outside the analysis core: its outcome for the input's
  name is a parameter of \<open>analyze_file\<close> below.
\<close>

record 'ts AnalysisResult =
  timestamp :: 'ts
  total_time :: real
  bark_time :: py_float

text \<open>The product \<open>total_time * bark_fraction\<close> of a finite float and a float.\<close>

fun float_times :: "real \<Rightarrow> py_float \<Rightarrow> py_float" where
  "float_times t (Finite x) = Finite (t * x)"
| "float_times t PosInf = (if 0 < t then PosInf else if t < 0 then NegInf else NaN)"
| "float_times t NegInf = (if 0 < t then NegInf else if t < 0 then PosInf else NaN)"
| "float_times t NaN = NaN"

text \<open>
  \<open>analyze_file\<close> on the decoded waveform of its input (the \<open>.wav\<close> file itself, or the
  one \<open>extract_sound\<close> produces). Plotting has no effect on the returned record and is
  left out. The first parameter is passed on to \<open>get_bark_fraction\<close>.
  \<^verbatim>\<open>
    time, signal = read_sound_file(input_file)
    total_time = time[-1]
    bark_fraction = get_bark_fraction(signal, cutoff, max_gap)
    bark_time = total_time * bark_fraction
    message = (f"{extract_timestamp(input_file)}..." ...)
    ...
    return AnalysisResult(extract_timestamp(input_file), total_time, bark_time)
  \<close>
\<close>

definition analyze_file ::
  "count_type \<Rightarrow> wave_file \<Rightarrow> error + 'ts \<Rightarrow> int \<Rightarrow> real \<Rightarrow> error + 'ts AnalysisResult" where
  "analyze_file k input_file name_timestamp cutoff max_gap =
     (case read_sound_file input_file (SamplesInt (- 1)) of
        Inl e \<Rightarrow> Inl e
      | Inr (time, signal) \<Rightarrow>
          (case py_last time of
             Inl e \<Rightarrow> Inl e
           | Inr total_t \<Rightarrow>
               (case get_bark_fraction k signal cutoff max_gap of
                  Inl e \<Rightarrow> Inl e
                | Inr bark_fraction \<Rightarrow>
                    (case name_timestamp of
                       Inl e \<Rightarrow> Inl e
                     | Inr ts \<Rightarrow>
                         Inr \<lparr>timestamp = ts, total_time = total_t,
                              bark_time = float_times total_t bark_fraction\<rparr>))))"

subsection \<open>\<open>write_csv\<close>\<close>

text \<open>
  A cell of a CSV row is a string (the header's cells) or a value of a result record.
  The target path holds a file with its rows, or no file. \<open>write_csv\<close> returns the
  caller's \<open>rows\<close> list as it is after the call, and the file.
  \<^verbatim>\<open>
    if file.is_file() and not overwrite:
        mode = "a"
    else:
        header = ["timestamp", "total_time", "bark_time"]
        rows.insert(0, header)
        mode = "w"
    with file.open(mode, encoding="utf-8") as handle:
        writer = csv.writer(handle)
        writer.writerows(rows)
  \<close>
\<close>

datatype 'v cell = Text string | Value 'v

datatype open_mode = Append | Write

text \<open>Opening for writing truncates; opening for appending keeps what is there.\<close>

definition file_open :: "'r list option \<Rightarrow> open_mode \<Rightarrow> 'r list" where
  "file_open file mode =
     (case mode of
        Write \<Rightarrow> []
      | Append \<Rightarrow> (case file of None \<Rightarrow> [] | Some old \<Rightarrow> old))"

definition writerows :: "'r list \<Rightarrow> 'r list \<Rightarrow> 'r list" where
  "writerows handle rows = handle @ rows"

definition write_csv ::
  "'v cell list list \<Rightarrow> 'v cell list list option \<Rightarrow> bool
     \<Rightarrow> 'v cell list list \<times> 'v cell list list option" where
  "write_csv rows file overwrite =
     (let (rows', mode) =
            (if file \<noteq> None \<and> \<not> overwrite then (rows, Append)
             else
               let header = [Text ''timestamp'', Text ''total_time'', Text ''bark_time'']
               in (header # rows, Write))
      in (rows', Some (writerows (file_open file mode) rows')))"

subsection \<open>The classifier in the words of the specification\<close>

text \<open>
  The maximal runs of a mask, by a linear scan: a new run begins at index 0 and at every
  index whose value differs from the one before it. A run is its value and its length.
\<close>

fun runs :: "bool list \<Rightarrow> (bool \<times> nat) list" where
  "runs [] = []"
| "runs (x # xs) =
     (case runs xs of
        [] \<Rightarrow> [(x, 1)]
      | (y, n) # rs \<Rightarrow> if x = y then (y, Suc n) # rs else (x, 1) # (y, n) # rs)"

text \<open>The mask a list of runs stands for.\<close>

definition expand :: "(bool \<times> nat) list \<Rightarrow> bool list" where
  "expand rs = concat (map (\<lambda>(h, n). replicate n h) rs)"

text \<open>
  The patched mask: a low run of length at most \<open>max_gap\<close> becomes high, a longer one
  stays low, a high run stays high.
\<close>

definition spec_classify :: "real \<Rightarrow> bool list \<Rightarrow> bool list" where
  "spec_classify max_gap m =
     concat (map (\<lambda>(h, n). replicate n (h \<or> real n \<le> max_gap)) (runs m))"

text \<open>Successive runs have different values.\<close>

fun alternating :: "(bool \<times> nat) list \<Rightarrow> bool" where
  "alternating [] = True"
| "alternating [r] = True"
| "alternating (r # q # rs) = (fst r \<noteq> fst q \<and> alternating (q # rs))"

text \<open>
  The sample \<open>patch_signal\<close> returns at a position, from the sample \<open>x\<close> it received
  there and the patched mask's value \<open>p\<close>: a low sample that the patched mask calls high
  is overwritten with the converted \<open>cutoff + 1\<close>, every other sample is unchanged.
\<close>

definition patched_value :: "int \<Rightarrow> 'a::len word \<Rightarrow> bool \<Rightarrow> 'a word" where
  "patched_value cutoff x p = (if p \<and> sint x \<le> cutoff then word_of_int (cutoff + 1) else x)"

text \<open>The patched signal, from the patched mask of the specification.\<close>

definition spec_patch :: "int \<Rightarrow> real \<Rightarrow> 'a::len word list \<Rightarrow> 'a word list" where
  "spec_patch cutoff max_gap signal =
     map2 (patched_value cutoff) signal
       (spec_classify max_gap (map (\<lambda>x. cutoff < sint x) signal))"

subsection \<open>Auxiliary notions of the proofs\<close>

text \<open>\<^verbatim>\<open>mask[:-1] != mask[1:]\<close>: the positions where the mask changes.\<close>

definition changes :: "bool list \<Rightarrow> bool list" where
  "changes m = map2 (\<lambda>a b. a \<noteq> b) (butlast m) (tl m)"

text \<open>The positions of the low runs of length at most max_gap, from a start index.\<close>

fun gap_indices :: "real \<Rightarrow> nat \<Rightarrow> (bool \<times> nat) list \<Rightarrow> nat list" where
  "gap_indices max_gap index [] = []"
| "gap_indices max_gap index ((h, n) # rs) =
     (if \<not> h \<and> real n \<le> max_gap then [index..<index + n] else []) @
     gap_indices max_gap (index + n) rs"

section \<open>Run detection and patching\<close>


lemma np_where_Cons:
  "np_where (b # bs) = (if b then [0] else []) @ map Suc (np_where bs)"
proof -
  have "[0..<Suc (length bs)] = 0 # map Suc [0..<length bs]"
    by (simp add: upt_conv_Cons map_Suc_upt del: upt_Suc)
  then show ?thesis
    by (simp add: np_where_def filter_map comp_def del: upt_Suc)
qed

lemma np_where_Nil: "np_where [] = []"
  by (simp add: np_where_def)

lemma np_diff_single: "np_diff [a] = []"
  by (simp add: np_diff_def)

lemma np_diff_Cons2: "np_diff (a # b # xs) = (b - a) # np_diff (b # xs)"
  by (simp add: np_diff_def)

lemma np_diff_map_Suc: "np_diff (map Suc xs) = np_diff xs"
proof (induction xs rule: induct_list012)
  case (3 x y zs)
  then show ?case by (simp add: np_diff_Cons2)
qed (simp_all add: np_diff_def)

lemma changes_single: "changes [x] = []"
  by (simp add: changes_def)

lemma changes_Cons2: "changes (x # y # xs) = (x \<noteq> y) # changes (y # xs)"
  by (simp add: changes_def)

lemma runs_not_Nil: "m \<noteq> [] \<Longrightarrow> runs m \<noteq> []"
  by (cases m) (auto split: list.splits)

lemma hd_runs: "m \<noteq> [] \<Longrightarrow> fst (hd (runs m)) = hd m"
  by (cases m) (auto split: list.splits)

lemma run_lengths:
  "m \<noteq> [] \<Longrightarrow> np_diff (0 # map Suc (np_where (changes m @ [True]))) = map snd (runs m) \<and>
     np_where (changes m @ [True]) \<noteq> [] \<and> Suc (hd (np_where (changes m @ [True]))) = snd (hd (runs m))"
proof (induction m rule: induct_list012)
  case 1
  then show ?case by simp
next
  case (2 x)
  then show ?case by (simp add: changes_single np_where_Cons np_where_Nil np_diff_Cons2 np_diff_single)
next
  case (3 x y zs)
  let ?W = "np_where (changes (y # zs) @ [True])"
  from 3 have ih: "np_diff (0 # map Suc ?W) = map snd (runs (y # zs))"
    and ne: "?W \<noteq> []" and h: "Suc (hd ?W) = snd (hd (runs (y # zs)))"
    by (simp_all del: runs.simps)
  obtain w ws where W: "?W = w # ws" using ne by (cases ?W) auto
  obtain r rs where R: "runs (y # zs) = r # rs" using runs_not_Nil[of "y # zs"] by (cases "runs (y # zs)") auto
  have fr: "fst r = y" using hd_runs[of "y # zs"] R by simp
  show ?case
  proof (cases "x = y")
    case True
    have "np_diff (0 # map Suc ?W) = Suc w # np_diff (map Suc ?W)"
      using W by (simp add: np_diff_Cons2)
    then have d: "np_diff ?W = map snd rs"
      using ih R by (simp add: np_diff_map_Suc del: runs.simps)
    have "np_diff (0 # map Suc (map Suc ?W)) = Suc (Suc w) # np_diff (map Suc (map Suc ?W))"
      using W by (simp add: np_diff_Cons2)
    then have "np_diff (0 # map Suc (map Suc ?W)) = Suc (snd r) # map snd rs"
      using d h W R by (simp only: np_diff_map_Suc) (simp del: runs.simps)
    moreover have "runs (x # y # zs) = (y, Suc (snd r)) # rs"
      using True fr by (subst runs.simps, cases r) (simp add: R del: runs.simps)
    moreover have "Suc w = snd r"
      using h W R by simp
    ultimately show ?thesis using True W
      by (simp add: changes_Cons2 np_where_Cons del: runs.simps)
  next
    case False
    have "np_diff (0 # Suc 0 # map Suc (map Suc ?W)) = 1 # np_diff (map Suc (0 # map Suc ?W))"
      by (simp add: np_diff_Cons2)
    also have "\<dots> = 1 # map snd (runs (y # zs))"
      using ih by (simp only: np_diff_map_Suc)
    finally have "np_diff (0 # Suc 0 # map Suc (map Suc ?W)) = 1 # map snd (runs (y # zs))" .
    moreover have "runs (x # y # zs) = (x, 1) # runs (y # zs)"
      using False fr by (subst runs.simps, cases r) (simp add: R del: runs.simps)
    ultimately show ?thesis using False
      by (simp add: changes_Cons2 np_where_Cons del: runs.simps)
  qed
qed


lemma runs_Cons_cases:
  "runs (x # xs) = [(x, 1)] \<and> xs = [] \<or>
   (\<exists>n rs. runs xs = (x, n) # rs \<and> runs (x # xs) = (x, Suc n) # rs) \<or>
   (\<exists>n rs. runs xs = (\<not> x, n) # rs \<and> runs (x # xs) = (x, 1) # (\<not> x, n) # rs)"
proof (cases "runs xs")
  case Nil
  then have "xs = []" using runs_not_Nil by blast
  then show ?thesis by simp
next
  case (Cons r rs)
  then show ?thesis by (cases r) auto
qed

lemma expand_runs: "expand (runs m) = m"
proof (induction m)
  case Nil
  then show ?case by (simp add: expand_def)
next
  case (Cons x xs)
  from runs_Cons_cases[of x xs] Cons show ?case
    by (auto simp add: expand_def simp del: runs.simps)
qed

lemma alternating_runs: "alternating (runs m)"
proof (induction m)
  case Nil
  then show ?case by simp
next
  case (Cons x xs)
  from runs_Cons_cases[of x xs] Cons show ?case
    by (cases "runs xs" rule: alternating.cases) (auto simp del: runs.simps)
qed

lemma runs_positive: "list_all (\<lambda>r. 0 < snd r) (runs m)"
proof (induction m)
  case Nil
  then show ?case by simp
next
  case (Cons x xs)
  from runs_Cons_cases[of x xs] Cons show ?case
    by (auto simp del: runs.simps)
qed

lemma changes_map_Not: "changes (map Not m) = changes m"
  by (induction m rule: induct_list012) (simp_all add: changes_def)

lemma alternating_Cons:
  "alternating (r # rs) \<Longrightarrow> alternating rs \<and> (rs \<noteq> [] \<longrightarrow> fst (hd rs) = (\<not> fst r))"
  by (cases rs) auto

lemma patch_loop_gap_indices:
  "alternating rs \<Longrightarrow> (rs \<noteq> [] \<Longrightarrow> below = (\<not> fst (hd rs))) \<Longrightarrow>
     patch_loop max_gap (map snd rs) below index gaps
       = gaps @ gap_indices max_gap index rs"
proof (induction rs arbitrary: index gaps below)
  case Nil
  then show ?case by simp
next
  case (Cons r rs)
  obtain h n where r: "r = (h, n)" by (cases r)
  from Cons.prems have below: "below = (\<not> h)" by (simp add: r)
  from alternating_Cons[OF Cons.prems(1)]
  have alt: "alternating rs" and nxt: "rs \<noteq> [] \<Longrightarrow> (\<not> below) = (\<not> fst (hd rs))"
    by (simp_all add: r below)
  show ?case
    using Cons.IH[OF alt nxt] by (simp add: r below)
qed


lemma fold_update_range:
  "length pre = k \<Longrightarrow> length c = n \<Longrightarrow>
     fold (\<lambda>i s. s[i := v]) [k..<k + n] (pre @ c @ r) = pre @ replicate n v @ r"
proof (induction c arbitrary: pre k n)
  case Nil
  then show ?case by simp
next
  case (Cons x c)
  then obtain n' where n: "n = Suc n'" and len: "length c = n'" by (cases n) auto
  have "[k..<k + n] = k # [Suc k..<Suc k + n']"
    by (simp add: n upt_conv_Cons)
  moreover have "(pre @ (x # c) @ r)[k := v] = (pre @ [v]) @ c @ r"
    using Cons.prems(1) by (simp add: list_update_append)
  moreover have "fold (\<lambda>i s. s[i := v]) [Suc k..<Suc k + n'] ((pre @ [v]) @ c @ r)
      = (pre @ [v]) @ replicate n' v @ r"
    using Cons.prems(1) len by (intro Cons.IH) simp_all
  ultimately show ?case by (simp add: n)
qed

lemma gap_indices_in_range:
  "list_all (\<lambda>i. i < index + length (expand rs)) (gap_indices max_gap index rs)"
proof (induction rs arbitrary: index)
  case Nil
  then show ?case by simp
next
  case (Cons r rs)
  obtain h n where r: "r = (h, n)" by (cases r)
  have "list_all (\<lambda>i. i < index + n + length (expand rs)) (gap_indices max_gap (index + n) rs)"
    using Cons.IH[of "index + n"] .
  then show ?case
    by (auto simp add: r expand_def list_all_iff add.assoc)
qed

lemma fold_update_gap_indices:
  "map (\<lambda>x. cutoff < sint x) xs = expand rs \<Longrightarrow> length pre = index \<Longrightarrow>
     fold (\<lambda>i s. s[i := word_of_int (cutoff + 1)]) (gap_indices max_gap index rs) (pre @ xs)
       = pre @ map2 (patched_value cutoff) xs
           (concat (map (\<lambda>(h, n). replicate n (h \<or> real n \<le> max_gap)) rs))"
proof (induction rs arbitrary: xs pre index)
  case Nil
  then show ?case by (simp add: expand_def)
next
  case (Cons r rs)
  obtain h n where r: "r = (h, n)" by (cases r)
  let ?c = "take n xs" and ?t = "drop n xs"
  from Cons.prems(1) have m: "map (\<lambda>x. cutoff < sint x) xs = replicate n h @ expand rs"
    by (simp add: r expand_def)
  then have "length xs = n + length (expand rs)"
    by (metis length_append length_map length_replicate)
  then have lc: "length ?c = n" by simp
  from m have "map (\<lambda>x. cutoff < sint x) (take n xs) = take n (replicate n h @ expand rs)"
    by (simp flip: take_map)
  then have mc: "map (\<lambda>x. cutoff < sint x) ?c = replicate n h" by simp
  from m have "map (\<lambda>x. cutoff < sint x) (drop n xs) = drop n (replicate n h @ expand rs)"
    by (simp flip: drop_map)
  then have mt: "map (\<lambda>x. cutoff < sint x) ?t = expand rs" by simp
  let ?p = "h \<or> real n \<le> max_gap"
  let ?c' = "map2 (patched_value cutoff) ?c (replicate n ?p)"
  have all: "\<forall>x \<in> set ?c. (cutoff < sint x) = h"
  proof
    fix x assume "x \<in> set ?c"
    then have "(cutoff < sint x) \<in> set (map (\<lambda>x. cutoff < sint x) ?c)" by simp
    then show "(cutoff < sint x) = h" unfolding mc by simp
  qed
  have c': "?c' = (if \<not> h \<and> real n \<le> max_gap then replicate n (word_of_int (cutoff + 1)) else ?c)"
  proof -
    have "?c' = map (\<lambda>x. patched_value cutoff x ?p) ?c"
      using lc by (simp add: zip_replicate2 map_idI)
    also have "\<dots> = (if \<not> h \<and> real n \<le> max_gap then replicate n (word_of_int (cutoff + 1)) else ?c)"
    proof (cases "\<not> h \<and> real n \<le> max_gap")
      case True
      then have "map (\<lambda>x. patched_value cutoff x ?p) ?c = map (\<lambda>x. word_of_int (cutoff + 1)) ?c"
        using all by (intro map_cong) (auto simp add: patched_value_def)
      also have "\<dots> = replicate n (word_of_int (cutoff + 1))"
        using lc by (simp only: map_replicate_const)
      finally show ?thesis using True by simp
    next
      case False
      then have "map (\<lambda>x. patched_value cutoff x ?p) ?c = map (\<lambda>x. x) ?c"
        using all by (intro map_cong) (auto simp add: patched_value_def)
      then show ?thesis using False by auto
    qed
    finally show ?thesis .
  qed
  have first: "fold (\<lambda>i s. s[i := word_of_int (cutoff + 1)])
        (if \<not> h \<and> real n \<le> max_gap then [index..<index + n] else []) (pre @ ?c @ ?t)
      = (pre @ ?c') @ ?t"
    using fold_update_range[OF Cons.prems(2) lc, of "word_of_int (cutoff + 1)" ?t] by (simp add: c')
  have rest: "fold (\<lambda>i s. s[i := word_of_int (cutoff + 1)]) (gap_indices max_gap (index + n) rs) ((pre @ ?c') @ ?t)
      = (pre @ ?c') @ map2 (patched_value cutoff) ?t
           (concat (map (\<lambda>(h, n). replicate n (h \<or> real n \<le> max_gap)) rs))"
    using Cons.prems(2) lc by (intro Cons.IH[OF mt]) simp
  have "map2 (patched_value cutoff) xs
           (concat (map (\<lambda>(h, n). replicate n (h \<or> real n \<le> max_gap)) (r # rs)))
      = map2 (patched_value cutoff) (?c @ ?t)
           (replicate n ?p @ concat (map (\<lambda>(h, n). replicate n (h \<or> real n \<le> max_gap)) rs))"
    by (simp add: r)
  also have "\<dots> = ?c' @ map2 (patched_value cutoff) ?t
           (concat (map (\<lambda>(h, n). replicate n (h \<or> real n \<le> max_gap)) rs))"
    using lc by (subst zip_append) simp_all
  finally have rhs: "map2 (patched_value cutoff) xs
           (concat (map (\<lambda>(h, n). replicate n (h \<or> real n \<le> max_gap)) (r # rs)))
      = ?c' @ map2 (patched_value cutoff) ?t
           (concat (map (\<lambda>(h, n). replicate n (h \<or> real n \<le> max_gap)) rs))" .
  have "fold (\<lambda>i s. s[i := word_of_int (cutoff + 1)]) (gap_indices max_gap index (r # rs)) (pre @ xs)
      = fold (\<lambda>i s. s[i := word_of_int (cutoff + 1)]) (gap_indices max_gap (index + n) rs)
          (fold (\<lambda>i s. s[i := word_of_int (cutoff + 1)])
             (if \<not> h \<and> real n \<le> max_gap then [index..<index + n] else []) (pre @ ?c @ ?t))"
    by (simp add: r)
  then show ?case
    unfolding first rest rhs by simp
qed


lemma patch_signal_gaps:
  assumes "signal \<noteq> []"
  shows "patch_signal signal cutoff max_gap =
    np_assign signal (gap_indices max_gap 0 (runs (map (\<lambda>x. cutoff < sint x) signal))) (cutoff + 1)"
proof -
  let ?hm = "map (\<lambda>x. cutoff < sint x) signal"
  obtain s0 rest where sig: "signal = s0 # rest" using assms by (cases signal) auto
  have hm: "?hm \<noteq> []" using assms by simp
  have lens: "np_diff (np_where ([True] @ changes ?hm @ [True])) = map snd (runs ?hm)"
    using run_lengths[OF hm] by (simp add: np_where_Cons)
  have loop: "patch_loop max_gap (map snd (runs ?hm)) (\<not> hd ?hm) 0 []
      = gap_indices max_gap 0 (runs ?hm)"
    using patch_loop_gap_indices[OF alternating_runs, of ?hm "\<not> hd ?hm" max_gap 0 "[]"]
      hd_runs[OF hm] by simp
  show ?thesis
  proof (cases "sint s0 > cutoff")
    case True
    have "patch_signal signal cutoff max_gap =
        np_assign signal (patch_loop max_gap
          (np_diff (np_where ([True] @ changes ?hm @ [True]))) False 0 []) (cutoff + 1)"
      using True by (simp add: patch_signal_def sig changes_def)
    then show ?thesis
      using loop True unfolding lens by (simp add: sig)
  next
    case False
    have eq: "map (\<lambda>x. sint x \<le> cutoff) signal = map Not ?hm"
      by (simp add: not_less)
    have "patch_signal signal cutoff max_gap =
        np_assign signal (patch_loop max_gap
          (np_diff (np_where ([True] @ changes (map Not ?hm) @ [True]))) True 0 []) (cutoff + 1)"
      using False unfolding eq[symmetric] by (simp add: patch_signal_def sig changes_def)
    then show ?thesis
      using loop False unfolding changes_map_Not lens by (simp add: sig)
  qed
qed

lemma patch_signal_spec:
  assumes "signal \<noteq> []"
  shows "patch_signal signal cutoff max_gap = Inr (spec_patch cutoff max_gap signal)"
proof -
  let ?hm = "map (\<lambda>x. cutoff < sint x) signal"
  have "list_all (\<lambda>i. i < 0 + length (expand (runs ?hm))) (gap_indices max_gap 0 (runs ?hm))"
    by (rule gap_indices_in_range)
  then have inr: "list_all (\<lambda>i. i < length signal) (gap_indices max_gap 0 (runs ?hm))"
    by (simp add: expand_runs)
  have "fold (\<lambda>i s. s[i := word_of_int (cutoff + 1)]) (gap_indices max_gap 0 (runs ?hm)) ([] @ signal)
      = [] @ map2 (patched_value cutoff) signal
           (concat (map (\<lambda>(h, n). replicate n (h \<or> real n \<le> max_gap)) (runs ?hm)))"
    by (rule fold_update_gap_indices) (simp_all add: expand_runs)
  then show ?thesis
    using inr by (simp add: patch_signal_gaps[OF assms] np_assign_def spec_patch_def spec_classify_def)
qed

section \<open>Properties of the specified classifier\<close>

lemma length_spec_classify: "length (spec_classify max_gap m) = length m"
proof -
  have "length (concat (map (\<lambda>(h, n). replicate n (h \<or> real n \<le> max_gap)) rs))
      = length (expand rs)" for rs
    by (induction rs) (auto simp add: expand_def)
  then show ?thesis by (simp add: spec_classify_def expand_runs)
qed

lemma spec_classify_keeps_high: "list_all2 (\<lambda>h p. h \<longrightarrow> p) m (spec_classify max_gap m)"
proof -
  have "list_all2 (\<lambda>h p. h \<longrightarrow> p) (expand rs)
      (concat (map (\<lambda>(h, n). replicate n (h \<or> real n \<le> max_gap)) rs))" for rs
  proof (induction rs)
    case Nil
    then show ?case by (simp add: expand_def)
  next
    case (Cons r rs)
    obtain h n where r: "r = (h, n)" by (cases r)
    have "list_all2 (\<lambda>h p. h \<longrightarrow> p) (replicate n h) (replicate n (h \<or> real n \<le> max_gap))"
      by (simp add: list_all2_conv_all_nth)
    then show ?case
      using Cons by (simp add: r expand_def list_all2_appendI)
  qed
  from this[of "runs m"] show ?thesis by (simp add: spec_classify_def expand_runs)
qed

lemma sint_representable:
  fixes signal :: "'a::len word list"
  assumes "representable signal v"
  shows "sint (word_of_int v :: 'a word) = v"
  using assms by (simp add: representable_def sint_sbintrunc' signed_take_bit_int_eq_self)

lemma mask_of_patched:
  fixes xs :: "'a::len word list"
  assumes "cutoff < sint (word_of_int (cutoff + 1) :: 'a word)"
  shows "list_all2 (\<lambda>h p. h \<longrightarrow> p) (map (\<lambda>x. cutoff < sint x) xs) ps \<Longrightarrow>
     map (\<lambda>x. cutoff < sint x) (map2 (patched_value cutoff) xs ps) = ps"
proof (induction xs arbitrary: ps)
  case Nil
  then show ?case by simp
next
  case (Cons x xs)
  then obtain p ps' where ps: "ps = p # ps'" by (cases ps) auto
  with Cons assms show ?case by (auto simp add: patched_value_def)
qed

lemma mask_spec_patch:
  assumes "representable signal (cutoff + 1)"
  shows "map (\<lambda>x. cutoff < sint x) (spec_patch cutoff max_gap signal)
     = spec_classify max_gap (map (\<lambda>x. cutoff < sint x) signal)"
proof -
  have "cutoff < sint (word_of_int (cutoff + 1) :: 'a word)"
    using sint_representable[OF assms] by simp
  then show ?thesis
    unfolding spec_patch_def by (rule mask_of_patched) (rule spec_classify_keeps_high)
qed

lemma high_samples_kept:
  "list_all2 (\<lambda>x y. cutoff < sint x \<longrightarrow> y = x) signal (spec_patch cutoff max_gap signal)"
proof -
  have "length ps = length xs \<Longrightarrow>
      list_all2 (\<lambda>x y. cutoff < sint x \<longrightarrow> y = x) xs (map2 (patched_value cutoff) xs ps)"
    for xs :: "'a word list" and ps
    by (induction xs ps rule: list_induct2') (simp_all add: patched_value_def)
  then show ?thesis
    by (simp add: spec_patch_def length_spec_classify)
qed

lemma length_spec_patch: "length (spec_patch cutoff max_gap signal) = length signal"
  by (simp add: spec_patch_def length_spec_classify)

lemma count_nonzero_mono:
  "list_all2 (\<lambda>h p. h \<longrightarrow> p) m ps \<Longrightarrow> count_nonzero m \<le> count_nonzero ps"
  by (induction rule: list_all2_induct) (auto simp add: count_nonzero_def)

lemma runs_replicate: "0 < n \<Longrightarrow> runs (replicate n b) = [(b, n)]"
proof (induction n)
  case 0
  then show ?case by simp
next
  case (Suc n)
  then show ?case by (cases n) simp_all
qed

lemma spec_classify_no_gap:
  assumes "max_gap < 1"
  shows "spec_classify max_gap m = m"
proof -
  have "(case r of (h, n) \<Rightarrow> replicate n (h \<or> real n \<le> max_gap))
      = (case r of (h, n) \<Rightarrow> replicate n h)" if "r \<in> set (runs m)" for r
  proof -
    have "0 < snd r" using runs_positive[of m] that by (simp add: list_all_iff)
    then have "\<not> real (snd r) \<le> max_gap" using assms by simp
    then show ?thesis by (cases r) simp
  qed
  then have "map (\<lambda>(h, n). replicate n (h \<or> real n \<le> max_gap)) (runs m)
      = map (\<lambda>(h, n). replicate n h) (runs m)"
    by (intro map_cong) simp_all
  then have "spec_classify max_gap m = expand (runs m)"
    unfolding spec_classify_def expand_def by (rule arg_cong[where f = concat])
  then show ?thesis
    by (simp only: expand_runs)
qed

lemma spec_patch_no_gap:
  assumes "max_gap < 1"
  shows "spec_patch cutoff max_gap signal = signal"
proof -
  have "map2 (patched_value cutoff) signal (map (\<lambda>x. cutoff < sint x) signal)
      = map (\<lambda>x. patched_value cutoff x (cutoff < sint x)) signal"
    by (induction signal) simp_all
  also have "\<dots> = signal"
    by (intro map_idI) (auto simp add: patched_value_def)
  finally show ?thesis
    by (simp add: spec_patch_def spec_classify_no_gap[OF assms])
qed

lemma count_nonzero_map: "count_nonzero (map f xs) = length (filter f xs)"
  by (simp add: count_nonzero_def filter_map comp_def)

lemma get_bark_fraction_value:
  assumes "signal \<noteq> []"
  shows "get_bark_fraction k signal cutoff max_gap =
     Inr (Finite (real (count_nonzero (map (\<lambda>x. cutoff < sint x)
            (if max_gap \<le> 0 then signal else spec_patch cutoff (max_gap / 0.000125) signal)))
          / real (length signal)))"
  using assms
  by (simp add: get_bark_fraction_def count_div_def patch_signal_spec length_spec_patch)

lemma last_np_linspace: "2 \<le> num \<Longrightarrow> py_last (np_linspace start stop num) = Inr stop"
  by (simp add: np_linspace_def py_last_def)

lemma read_sound_file_mono:
  assumes "nchannels file \<noteq> 2" and "0 < framerate file"
  shows "read_sound_file file (SamplesInt (- 1)) =
     Inr (np_linspace 0 (real (length (frames file)) / real (framerate file)) (length (frames file)),
          map np_abs (frames file))"
  using assms by (simp add: read_sound_file_def readframes_def py_div_def)

section \<open>The claims\<close>

subsection \<open>Patching by runs\<close>

text \<open>
  Claim C1, as stated, fails for a cutoff whose successor the element type cannot hold.
  On the \<open>int16\<close> array \<open>[0, 0]\<close> with cutoff 32767 and \<open>max_gap = 2\<close> the single low run
  has length 2 and the claim calls it high; the code stores \<open>32767 + 1\<close>, which wraps to
  \<open>-32768\<close>, and both samples stay low. (numpy from 2.0 raises OverflowError at this
  store: there is no high run either.)
\<close>

theorem patch_signal_runs_counterexample:
  "patch_signal [0, 0 :: 16 word] 32767 2 = Inr [- 32768, - 32768] \<and>
   map_sum id (map (\<lambda>x. 32767 < sint x)) (patch_signal [0, 0 :: 16 word] 32767 2)
     \<noteq> Inr (concat (map (\<lambda>(h, n). replicate n (h \<or> real n \<le> 2))
              (runs (map (\<lambda>x. 32767 < sint x) [0, 0 :: 16 word]))))"
  by (simp add: patch_signal_def np_where_def np_diff_def np_assign_def)

text \<open>
  Claim C1, amended. For every non-empty signal, every \<open>max_gap\<close> (so also every
  \<open>max_gap \<ge> 1\<close>) and every cutoff such that \<open>cutoff + 1\<close> is representable in the
  element type of the array, the high/low classification of what \<open>patch_signal\<close> returns
  is obtained from the maximal runs of the input's classification (high: sample strictly
  greater than \<open>cutoff\<close>): a low run of length at most \<open>max_gap\<close> becomes high, a longer
  low run stays low, a high run stays high. The first and the last run are runs like any
  other. The runs cover the mask in order (\<open>expand\<close>), successive runs differ in value
  (\<open>alternating\<close>) and no run is empty.
\<close>

theorem patch_signal_runs:
  assumes "signal \<noteq> []" and "representable signal (cutoff + 1)"
  shows "map_sum id (map (\<lambda>x. cutoff < sint x)) (patch_signal signal cutoff max_gap)
           = Inr (concat (map (\<lambda>(h, n). replicate n (h \<or> real n \<le> max_gap))
                   (runs (map (\<lambda>x. cutoff < sint x) signal)))) \<and>
         expand (runs (map (\<lambda>x. cutoff < sint x) signal)) = map (\<lambda>x. cutoff < sint x) signal \<and>
         alternating (runs (map (\<lambda>x. cutoff < sint x) signal)) \<and>
         list_all (\<lambda>r. 0 < snd r) (runs (map (\<lambda>x. cutoff < sint x) signal))"
  using assms
  by (simp add: patch_signal_spec mask_spec_patch expand_runs alternating_runs runs_positive
      flip: spec_classify_def)

text \<open>
  At a signal whose leading low run has length 2 (patched), whose interior low run has
  length 1 (patched) and whose trailing low run has length 3 (left low).
\<close>

theorem patch_signal_runs_witness:
  "[0, 0, 200, 0, 200, 0, 0, 0] \<noteq> ([] :: 16 word list) \<and>
   representable [0, 0, 200, 0, 200, 0, 0, 0 :: 16 word] (100 + 1) \<and>
   map_sum id (map (\<lambda>x. 100 < sint x))
       (patch_signal [0, 0, 200, 0, 200, 0, 0, 0 :: 16 word] 100 2)
     = Inr [True, True, True, True, True, False, False, False] \<and>
   runs (map (\<lambda>x. 100 < sint x) [0, 0, 200, 0, 200, 0, 0, 0 :: 16 word])
     = [(False, 2), (True, 1), (False, 1), (True, 1), (False, 3)]"
  using patch_signal_runs [of "[0, 0, 200, 0, 200, 0, 0, 0 :: 16 word]" 100 2]
  by (simp add: representable_def)

text \<open>
  Claim C9, as stated, fails for a cutoff whose successor the element type cannot hold.
  On the \<open>int16\<close> array \<open>[0, 1]\<close> with cutoff 32767 and \<open>max_gap = 2\<close> both samples are
  patched, and the value they receive is \<open>-32768\<close>: neither the input value nor
  \<open>cutoff + 1 = 32768\<close>. (numpy from 2.0 raises OverflowError at this store and returns
  no array.)
\<close>

theorem patch_signal_values_counterexample:
  "patch_signal [0, 1 :: 16 word] 32767 2 = Inr [- 32768, - 32768] \<and>
   sint (- 32768 :: 16 word) \<noteq> sint (0 :: 16 word) \<and>
   sint (- 32768 :: 16 word) \<noteq> 32767 + 1"
  by (simp add: patch_signal_def np_where_def np_diff_def np_assign_def)

text \<open>
  Claim C9, amended. For every non-empty signal, every \<open>max_gap\<close> and every cutoff such
  that \<open>cutoff + 1\<close> is representable in the element type of the array, the array
  \<open>patch_signal\<close> returns has the length of the input, and each of its elements is the
  input's value at that position (for a sample strictly above \<open>cutoff\<close>, and for a low
  sample in a run longer than \<open>max_gap\<close>) or the value \<open>cutoff + 1\<close> (for a low sample in
  a run of length at most \<open>max_gap\<close>): no other value appears.
\<close>

theorem patch_signal_values:
  fixes signal :: "'a::len word list"
  assumes "signal \<noteq> []" and "representable signal (cutoff + 1)"
  shows "\<exists>out. patch_signal signal cutoff max_gap = Inr out \<and>
           length out = length signal \<and>
           (\<forall>i < length signal.
              out ! i = (if cutoff < sint (signal ! i) then signal ! i
                         else if spec_classify max_gap (map (\<lambda>x. cutoff < sint x) signal) ! i
                              then word_of_int (cutoff + 1) else signal ! i)) \<and>
           sint (word_of_int (cutoff + 1) :: 'a word) = cutoff + 1"
proof -
  let ?out = "spec_patch cutoff max_gap signal"
  have "?out ! i = (if cutoff < sint (signal ! i) then signal ! i
                         else if spec_classify max_gap (map (\<lambda>x. cutoff < sint x) signal) ! i
                              then word_of_int (cutoff + 1) else signal ! i)"
    if "i < length signal" for i
    using that by (auto simp add: spec_patch_def length_spec_classify patched_value_def)
  then show ?thesis
    using patch_signal_spec[OF assms(1)] length_spec_patch sint_representable[OF assms(2)]
    by blast
qed

text \<open>
  At a signal with a patched leading sample, a high sample and a long trailing low run.
\<close>

theorem patch_signal_values_witness:
  "[0, 300, 0, 0, 0] \<noteq> ([] :: 16 word list) \<and>
   representable [0, 300, 0, 0, 0 :: 16 word] (100 + 1) \<and>
   (\<exists>out. patch_signal [0, 300, 0, 0, 0 :: 16 word] 100 2 = Inr out \<and> length out = 5 \<and>
      out ! 0 = 101 \<and> out ! 1 = 300 \<and> out ! 4 = 0)"
proof -
  have c: "spec_classify 2 (map (\<lambda>x. 100 < sint x) [0, 300, 0, 0, 0 :: 16 word])
      = [True, True, False, False, False]"
    by (simp add: spec_classify_def)
  have r: "representable [0, 300, 0, 0, 0 :: 16 word] (100 + 1)"
    by (simp add: representable_def)
  from patch_signal_values [of "[0, 300, 0, 0, 0 :: 16 word]" 100 2] r
  obtain out where o: "patch_signal [0, 300, 0, 0, 0 :: 16 word] 100 2 = Inr out" "length out = 5"
    and n: "\<forall>i < 5. out ! i = (if 100 < sint ([0, 300, 0, 0, 0 :: 16 word] ! i)
            then [0, 300, 0, 0, 0] ! i
            else if [True, True, False, False, False] ! i then word_of_int (100 + 1)
            else [0, 300, 0, 0, 0] ! i)"
    unfolding c by auto
  from n have "out ! 0 = 101" "out ! 1 = 300" "out ! 4 = 0" by simp_all
  with o r show ?thesis by simp
qed

text \<open>
  Claim C6. For every non-empty signal, every cutoff and every \<open>max_gap\<close> (so also every
  \<open>max_gap \<ge> 0\<close>), \<open>patch_signal\<close> returns an array in which at least as many samples
  are strictly above \<open>cutoff\<close> as in the input, and every position that was high in the
  input is high in the output.
\<close>

theorem patching_only_adds_high:
  assumes "signal \<noteq> []"
  shows "\<exists>out. patch_signal signal cutoff max_gap = Inr out \<and>
           length out = length signal \<and>
           count_nonzero (map (\<lambda>x. cutoff < sint x) signal)
             \<le> count_nonzero (map (\<lambda>x. cutoff < sint x) out) \<and>
           list_all2 (\<lambda>x y. cutoff < sint x \<longrightarrow> cutoff < sint y) signal out"
proof -
  let ?out = "spec_patch cutoff max_gap signal"
  have "list_all2 (\<lambda>x y. cutoff < sint x \<longrightarrow> y = x) signal ?out"
    by (rule high_samples_kept)
  then have keep: "list_all2 (\<lambda>x y. cutoff < sint x \<longrightarrow> cutoff < sint y) signal ?out"
    by (rule list_all2_mono) simp
  then have "list_all2 (\<lambda>h p. h \<longrightarrow> p)
      (map (\<lambda>x. cutoff < sint x) signal) (map (\<lambda>x. cutoff < sint x) ?out)"
    by (simp add: list_all2_map1 list_all2_map2)
  then have "count_nonzero (map (\<lambda>x. cutoff < sint x) signal)
      \<le> count_nonzero (map (\<lambda>x. cutoff < sint x) ?out)"
    by (rule count_nonzero_mono)
  then show ?thesis
    using keep patch_signal_spec[OF assms] length_spec_patch by blast
qed

text \<open>
  At a signal with two high samples, one short gap and one long gap.
\<close>

theorem patching_only_adds_high_witness:
  "[200, 0, 200, 0, 0, 0] \<noteq> ([] :: 16 word list) \<and>
   (\<exists>out. patch_signal [200, 0, 200, 0, 0, 0 :: 16 word] 100 2 = Inr out \<and>
      length out = 6 \<and> 2 \<le> count_nonzero (map (\<lambda>x. 100 < sint x) out))"
  using patching_only_adds_high [of "[200, 0, 200, 0, 0, 0 :: 16 word]" 100 2]
  by (auto simp add: count_nonzero_def)

text \<open>
  Claim C7, as stated, fails for a cutoff whose successor the element type cannot hold.
  Every \<open>int16\<close> sample is at most 32767; on \<open>[5, 7, 0]\<close> with cutoff 32767 and
  \<open>max_gap = 3\<close> the length is within the tolerance, and the claim calls the result
  entirely high; the code stores \<open>-32768\<close> in every position, and the result is entirely
  low. (numpy from 2.0 raises OverflowError at this store.)
\<close>

theorem all_low_signal_counterexample:
  "list_all (\<lambda>x. sint x \<le> 32767) [5, 7, 0 :: 16 word] \<and>
   real (length [5, 7, 0 :: 16 word]) \<le> 3 \<and>
   patch_signal [5, 7, 0 :: 16 word] 32767 3 = Inr [- 32768, - 32768, - 32768] \<and>
   map_sum id (map (\<lambda>x. 32767 < sint x)) (patch_signal [5, 7, 0 :: 16 word] 32767 3)
     = Inr [False, False, False]"
  by (simp add: patch_signal_def np_where_def np_diff_def np_assign_def)

text \<open>
  Claim C7, amended. For every non-empty signal in which every sample is at most
  \<open>cutoff\<close>, with \<open>cutoff + 1\<close> representable in the element type of the array,
  \<open>patch_signal\<close> returns an entirely high array (every sample \<open>cutoff + 1\<close>) when the
  length is at most \<open>max_gap\<close>, and the unchanged, entirely low array when the length
  exceeds \<open>max_gap\<close>.
\<close>

theorem all_low_signal:
  fixes signal :: "'a::len word list"
  assumes "signal \<noteq> []" and "list_all (\<lambda>x. sint x \<le> cutoff) signal"
    and "representable signal (cutoff + 1)"
  shows "patch_signal signal cutoff max_gap
           = Inr (if real (length signal) \<le> max_gap
                  then replicate (length signal) (word_of_int (cutoff + 1)) else signal) \<and>
         map_sum id (map (\<lambda>x. cutoff < sint x)) (patch_signal signal cutoff max_gap)
           = Inr (replicate (length signal) (real (length signal) \<le> max_gap)) \<and>
         sint (word_of_int (cutoff + 1) :: 'a word) = cutoff + 1"
proof -
  let ?n = "length signal"
  let ?p = "real ?n \<le> max_gap"
  have low: "\<forall>x \<in> set signal. \<not> cutoff < sint x"
    using assms(2) by (auto simp add: list_all_iff)
  then have "map (\<lambda>x. cutoff < sint x) signal = map (\<lambda>x. False) signal"
    by (intro map_cong) simp_all
  then have hm: "map (\<lambda>x. cutoff < sint x) signal = replicate ?n False"
    by (simp only: map_replicate_const)
  have "0 < ?n" using assms(1) by simp
  then have cl: "spec_classify max_gap (map (\<lambda>x. cutoff < sint x) signal) = replicate ?n ?p"
    unfolding hm by (simp add: spec_classify_def runs_replicate)
  have "spec_patch cutoff max_gap signal = map (\<lambda>x. patched_value cutoff x ?p) signal"
    unfolding spec_patch_def cl by (simp add: zip_replicate2)
  also have "\<dots> = (if ?p then replicate ?n (word_of_int (cutoff + 1)) else signal)"
  proof (cases ?p)
    case True
    then have "map (\<lambda>x. patched_value cutoff x ?p) signal
        = map (\<lambda>x. word_of_int (cutoff + 1)) signal"
      using low by (intro map_cong) (auto simp add: patched_value_def)
    then show ?thesis using True by (simp add: map_replicate_const)
  next
    case False
    then show ?thesis by (simp add: patched_value_def)
  qed
  finally have sp: "spec_patch cutoff max_gap signal
      = (if ?p then replicate ?n (word_of_int (cutoff + 1)) else signal)" .
  have "map (\<lambda>x. cutoff < sint x) (spec_patch cutoff max_gap signal) = replicate ?n ?p"
    by (simp only: mask_spec_patch[OF assms(3)] cl)
  then show ?thesis
    using patch_signal_spec[OF assms(1), of cutoff max_gap] sp sint_representable[OF assms(3)]
    by simp
qed

text \<open>
  An all-low signal of three samples, with a tolerance of three and of two samples.
\<close>

theorem all_low_signal_witness:
  "[0, 50, 100] \<noteq> ([] :: 16 word list) \<and> list_all (\<lambda>x. sint x \<le> 100) [0, 50, 100 :: 16 word] \<and>
   representable [0, 50, 100 :: 16 word] (100 + 1) \<and>
   patch_signal [0, 50, 100 :: 16 word] 100 3 = Inr [101, 101, 101] \<and>
   patch_signal [0, 50, 100 :: 16 word] 100 2 = Inr [0, 50, 100]"
  using all_low_signal [of "[0, 50, 100 :: 16 word]" 100 3]
    all_low_signal [of "[0, 50, 100 :: 16 word]" 100 2]
  by (simp add: representable_def)

subsection \<open>The fast path and the empty signal\<close>

text \<open>
  Claim C5. For every non-empty signal and every cutoff, \<open>get_bark_fraction\<close> with
  \<open>max_gap = 0\<close> returns the number of samples strictly above \<open>cutoff\<close> divided by the
  number of samples, and \<open>patch_signal\<close> with \<open>max_gap = 0\<close> returns the signal unchanged:
  the classification is the raw threshold mask.
\<close>

theorem no_gap_identity:
  assumes "signal \<noteq> []"
  shows "get_bark_fraction k signal cutoff 0
           = Inr (Finite (real (length (filter (\<lambda>x. cutoff < sint x) signal))
                          / real (length signal))) \<and>
         patch_signal signal cutoff 0 = Inr signal"
  using assms
  by (simp add: get_bark_fraction_value count_nonzero_map patch_signal_spec spec_patch_no_gap)

text \<open>
  At a signal of four samples, two of them above the cutoff.
\<close>

theorem no_gap_identity_witness:
  "[0, 200, 0, 300] \<noteq> ([] :: 16 word list) \<and>
   get_bark_fraction Python_int [0, 200, 0, 300 :: 16 word] 100 0 = Inr (Finite (1 / 2)) \<and>
   patch_signal [0, 200, 0, 300 :: 16 word] 100 0 = Inr [0, 200, 0, 300]"
  using no_gap_identity [of "[0, 200, 0, 300 :: 16 word]" Python_int 100]
  by simp

text \<open>
  Claim C4, as stated, fails: on the empty signal with \<open>max_gap = 0\<close>,
  \<open>get_bark_fraction\<close> goes straight to the division by \<open>len(signal) = 0\<close>; no check for
  an empty signal comes before it. The division raises ZeroDivisionError where
  \<open>np.count_nonzero\<close> returns a Python integer, and returns nan where it returns a numpy
  scalar.
\<close>

theorem empty_signal_counterexample:
  "get_bark_fraction Python_int ([] :: 16 word list) 5000 0 = Inl ZeroDivisionError \<and>
   get_bark_fraction Numpy_scalar ([] :: 16 word list) 5000 0 = Inr NaN"
  by (simp add: get_bark_fraction_def count_div_def count_nonzero_def)

text \<open>
  Claim C4, amended. There is no check for an empty signal. On the empty signal,
  \<open>get_bark_fraction\<close> with \<open>max_gap \<le> 0\<close> evaluates the division \<open>0 / 0\<close> of the count by
  the length (ZeroDivisionError or nan, as above), and with \<open>max_gap > 0\<close> it raises
  IndexError (from \<open>signal[0]\<close> in \<open>patch_signal\<close>, before any division);
  \<open>patch_signal\<close> itself raises IndexError.
\<close>

theorem empty_signal_errors:
  "get_bark_fraction k [] cutoff max_gap =
     (if max_gap \<le> 0 then count_div k 0 0 else Inl IndexError) \<and>
   count_div Python_int 0 0 = Inl ZeroDivisionError \<and>
   count_div Numpy_scalar 0 0 = Inr NaN \<and>
   patch_signal [] cutoff max_gap' = Inl IndexError"
  by (simp add: get_bark_fraction_def count_div_def patch_signal_def count_nonzero_def)

subsection \<open>The per-file analysis\<close>

text \<open>
  Claim C2, as stated, fails: for a mono file of two samples at 8000 Hz the analysis
  returns \<open>total_time = 2 / 8000\<close>, which is not \<open>(2 - 1) * (1 / 8000)\<close>. The time axis is
  \<open>np.linspace(0, len(signal) / frame_rate, num=len(signal))\<close>, whose last value is its
  stop value.
\<close>

theorem total_time_counterexample:
  "map_sum id total_time
     (analyze_file Python_int \<lparr>nchannels = 1, framerate = 8000, frames = [200, 0]\<rparr>
        (Inr ''2023-12-15 09:36:53'') 100 0) = Inr (2 / 8000) \<and>
   map_sum id total_time
     (analyze_file Numpy_scalar \<lparr>nchannels = 1, framerate = 8000, frames = [200, 0]\<rparr>
        (Inr ''2023-12-15 09:36:53'') 100 0) = Inr (2 / 8000) \<and>
   (2 / 8000 :: real) \<noteq> (2 - 1) * (1 / 8000)"
  by (simp add: analyze_file_def read_sound_file_def readframes_def py_div_def np_linspace_def
      py_last_def get_bark_fraction_def count_div_def np_abs_def count_nonzero_def)

text \<open>
  Claim C2, amended. For every mono file of \<open>N \<ge> 2\<close> samples at frame rate \<open>r > 0\<close> (and
  a file name with a timestamp), \<open>analyze_file\<close> returns a result whose \<open>total_time\<close> is
  \<open>N * (1 / r)\<close>, the sample count times the sample step.
\<close>

theorem total_time_value:
  assumes "nchannels file = 1" and "0 < framerate file" and "2 \<le> length (frames file)"
  shows "map_sum id total_time (analyze_file k file (Inr ts) cutoff max_gap)
           = Inr (real (length (frames file)) * (1 / real (framerate file)))"
proof -
  have ne: "map np_abs (frames file) \<noteq> []" using assms(3) by auto
  show ?thesis
    using assms
    by (simp add: analyze_file_def read_sound_file_mono last_np_linspace
        get_bark_fraction_value[OF ne])
qed

text \<open>
  At a mono file of three samples at 8000 Hz, with the default cutoff and gap.
\<close>

theorem total_time_value_witness:
  "nchannels \<lparr>nchannels = 1, framerate = 8000, frames = [200, 0, 7000]\<rparr> = 1 \<and>
   0 < framerate \<lparr>nchannels = 1, framerate = 8000, frames = [200, 0, 7000]\<rparr> \<and>
   2 \<le> length (frames \<lparr>nchannels = 1, framerate = 8000, frames = [200, 0, 7000]\<rparr>) \<and>
   map_sum id total_time
     (analyze_file Python_int \<lparr>nchannels = 1, framerate = 8000, frames = [200, 0, 7000]\<rparr>
        (Inr ''2023-12-15 09:36:53'') 5000 5) = Inr (3 / 8000)"
  using total_time_value [of "\<lparr>nchannels = 1, framerate = 8000, frames = [200, 0, 7000]\<rparr>"
      Python_int "''2023-12-15 09:36:53''" 5000 5]
  by simp

text \<open>
  Claim C3, at a mono file of four samples at 16000 Hz, cutoff 100 and a gap of
  \<open>1 / 8000\<close> seconds, which is two samples at this rate. \<open>get_bark_fraction\<close> divides
  the gap by the constant \<open>0.000125\<close> whatever the frame rate is: the tolerance is one
  sample, the low run of two samples stays low, the fraction is \<open>1 / 2\<close> and
  \<open>bark_time\<close> is half of \<open>total_time\<close>. With the tolerance \<open>max_gap * r\<close> of the claim,
  \<open>patch_signal\<close> fills the run.
\<close>

theorem gap_conversion_ignores_rate:
  "map_sum id (\<lambda>r. (total_time r, bark_time r))
     (analyze_file k \<lparr>nchannels = 1, framerate = 16000, frames = [200, 0, 0, 200]\<rparr>
        (Inr ''2023-12-15 09:36:53'') 100 (1 / 8000))
     = Inr (4 / 16000, Finite (4 / 16000 * (1 / 2))) \<and>
   get_bark_fraction k (map np_abs [200, 0, 0, 200]) 100 (1 / 8000) = Inr (Finite (1 / 2)) \<and>
   patch_signal (map np_abs [200, 0, 0, 200]) 100 (1 / 8000 / 0.000125) = Inr [200, 0, 0, 200] \<and>
   patch_signal (map np_abs [200, 0, 0, 200]) 100 (1 / 8000 * 16000) = Inr [200, 101, 101, 200]"
  by (simp add: analyze_file_def read_sound_file_def readframes_def py_div_def np_linspace_def
      py_last_def get_bark_fraction_def count_div_def np_abs_def count_nonzero_def
      patch_signal_def np_where_def np_diff_def np_assign_def)

text \<open>
  Claim C8. For every wave file with two channels, \<open>read_sound_file\<close> raises
  \<open>ValueError("Only mono files supported.")\<close>, whatever frames the file holds and
  whatever \<open>samples\<close> is, and \<open>analyze_file\<close> raises the same error: no result record is
  produced.
\<close>

theorem stereo_rejected:
  "nchannels file = 2 \<Longrightarrow>
     read_sound_file file samples = Inl (ValueError ''Only mono files supported.'') \<and>
     analyze_file k file name_timestamp cutoff max_gap
       = Inl (ValueError ''Only mono files supported.'')"
  by (simp add: read_sound_file_def analyze_file_def)

text \<open>
  At a stereo file at 8000 Hz.
\<close>

theorem stereo_rejected_witness:
  "nchannels \<lparr>nchannels = 2, framerate = 8000, frames = [200, 0, 300, 5]\<rparr> = 2 \<and>
   read_sound_file \<lparr>nchannels = 2, framerate = 8000, frames = [200, 0, 300, 5]\<rparr> (SamplesInt (- 1))
     = Inl (ValueError ''Only mono files supported.'') \<and>
   analyze_file Python_int \<lparr>nchannels = 2, framerate = 8000, frames = [200, 0, 300, 5]\<rparr>
     (Inr (0::nat)) 5000 5 = Inl (ValueError ''Only mono files supported.'')"
  using stereo_rejected [of "\<lparr>nchannels = 2, framerate = 8000, frames = [200, 0, 300, 5]\<rparr>"
      "SamplesInt (- 1)" Python_int "Inr (0::nat)" 5000 5]
  by simp

subsection \<open>The summary log\<close>

text \<open>
  Claim C10. When the target file exists and \<open>overwrite\<close> is false, \<open>write_csv\<close> leaves
  the caller's \<open>rows\<close> list as it is and the file holds its old rows followed by the
  given rows, with no header. Otherwise (no file, or \<open>overwrite\<close>) the caller's list has
  the header \<open>["timestamp", "total_time", "bark_time"]\<close> inserted at the front, and the
  file holds exactly the header followed by the given rows.
\<close>

theorem write_csv_effect:
  "(file = Some old \<and> \<not> overwrite \<longrightarrow>
      write_csv rows file overwrite = (rows, Some (old @ rows))) \<and>
   (file = None \<or> overwrite \<longrightarrow>
      write_csv rows file overwrite =
        ([Text ''timestamp'', Text ''total_time'', Text ''bark_time''] # rows,
         Some ([Text ''timestamp'', Text ''total_time'', Text ''bark_time''] # rows)))"
  by (auto simp add: write_csv_def file_open_def writerows_def)

text \<open>
  Appending one row to a log of one row, and creating the log.
\<close>

theorem write_csv_effect_witness:
  "write_csv [[Value (1::nat), Value 2, Value 3]] (Some [[Value 7, Value 8, Value 9]]) False
     = ([[Value 1, Value 2, Value 3]], Some [[Value 7, Value 8, Value 9], [Value 1, Value 2, Value 3]]) \<and>
   write_csv [[Value (1::nat), Value 2, Value 3]] None False
     = ([[Text ''timestamp'', Text ''total_time'', Text ''bark_time''], [Value 1, Value 2, Value 3]],
        Some [[Text ''timestamp'', Text ''total_time'', Text ''bark_time''], [Value 1, Value 2, Value 3]])"
  using write_csv_effect [of "Some [[Value 7, Value 8, Value 9]]" "[[Value 7, Value 8, Value 9]]" False
          "[[Value (1::nat), Value 2, Value 3]]"]
        write_csv_effect [of None "[]" False "[[Value (1::nat), Value 2, Value 3]]"]
  by simp

end
